theory Spec2Isabelle
  imports Main
begin

section \<open>JavaScript arrays and values\<close>

text \<open>
  An array is modelled by the list of its elements. The operations below are the ones of
  \<^verbatim>\<open>Array.prototype\<close> that the sources call, with what JavaScript does at the
  borders written out.
\<close>

text \<open>
  \<^verbatim>\<open>xs.findIndex(p)\<close>: the index of the first element that satisfies \<open>p\<close>, and
  \<open>-1\<close> when there is none.
\<close>

fun array_findIndex :: "('a \<Rightarrow> bool) \<Rightarrow> 'a list \<Rightarrow> int" where
  "array_findIndex p [] = - 1"
| "array_findIndex p (x # xs) =
     (if p x then 0
      else (let i = array_findIndex p xs in if i = - 1 then - 1 else i + 1))"

text \<open>
  \<^verbatim>\<open>xs.find(p)\<close>: the first element that satisfies \<open>p\<close>, and \<^verbatim>\<open>undefined\<close>
  (here \<open>None\<close>) when there is none.
\<close>

fun array_find :: "('a \<Rightarrow> bool) \<Rightarrow> 'a list \<Rightarrow> 'a option" where
  "array_find p [] = None"
| "array_find p (x # xs) = (if p x then Some x else array_find p xs)"

text \<open>
  \<^verbatim>\<open>xs.splice(start, deleteCount)\<close> removes \<open>deleteCount\<close> elements in place, beginning
  at \<open>start\<close>. A negative \<open>start\<close> counts from the end of the array (\<open>-1\<close> is the last
  element) and is clamped at \<open>0\<close>; a \<open>start\<close> beyond the end is clamped at the length.
  The model returns the elements that the array holds afterwards.
\<close>

definition array_splice :: "int \<Rightarrow> nat \<Rightarrow> 'a list \<Rightarrow> 'a list" where
  "array_splice start deleteCount xs =
     (let len = int (length xs);
          actualStart = (if start < 0 then max (len + start) 0 else min start len)
      in take (nat actualStart) xs @ drop (nat actualStart + deleteCount) xs)"

text \<open>
  Truthiness of a value that is a string or \<^verbatim>\<open>undefined\<close>: \<^verbatim>\<open>undefined\<close> and the
  empty string are falsy, every other string is truthy.
\<close>

fun truthy :: "string option \<Rightarrow> bool" where
  "truthy None = False"
| "truthy (Some s) = (s \<noteq> [])"

section \<open>CanvasHelpers: operations on tag arrays\<close>

text \<open>
  \<^verbatim>\<open>toggleTag(tags, tag)\<close> works in place and returns nothing. The model gives the
  contents of the array \<open>tags\<close> after the call.
\<close>

definition toggleTag :: "string list \<Rightarrow> string \<Rightarrow> string list" where
  "toggleTag tags tag =
     (let tagIndex = array_findIndex (\<lambda>existingTag. existingTag = tag) tags
      in if tagIndex = - 1 then tags @ [tag] else array_splice tagIndex 1 tags)"

text \<open>\<^verbatim>\<open>CanvasHelpers.find\<close> and \<^verbatim>\<open>CanvasHelpers.findIndex\<close>.\<close>

definition find_tag :: "string list \<Rightarrow> string \<Rightarrow> string option" where
  "find_tag tags tag = array_find (\<lambda>t. t = tag) tags"

definition findIndex :: "string list \<Rightarrow> string \<Rightarrow> int" where
  "findIndex tags tag = array_findIndex (\<lambda>t. t = tag) tags"

text \<open>
  \<^verbatim>\<open>addIfMissing(tags, tag)\<close> pushes \<open>tag\<close> when the element that \<open>find\<close> returned is
  falsy. The model gives the contents of \<open>tags\<close> after the call.
\<close>

definition addIfMissing :: "string list \<Rightarrow> string \<Rightarrow> string list" where
  "addIfMissing tags tag =
     (if \<not> truthy (find_tag tags tag) then tags @ [tag] else tags)"

fun addAllIfMissing :: "string list \<Rightarrow> string list \<Rightarrow> string list" where
  "addAllIfMissing tags [] = tags"
| "addAllIfMissing tags (target # targets) = addAllIfMissing (addIfMissing tags target) targets"

definition removeIfContained :: "string list \<Rightarrow> string \<Rightarrow> string list" where
  "removeIfContained tags tag =
     (let index = findIndex tags tag
      in if index \<ge> 0 then array_splice index 1 tags else tags)"

section \<open>Data model of the canvas\<close>

text \<open>
  The declarations of \<^verbatim>\<open>models/applicationState\<close> are not among the sources. The
  records below hold the fields that the sources read and write.

  Coordinates are JavaScript numbers. No claim depends on their arithmetic, so their type
  is a parameter \<open>'n\<close>.
\<close>

text \<open>
  Modelled from the spec: the enumeration \<^verbatim>\<open>AssetState\<close> is declared in
  \<^verbatim>\<open>models/applicationState\<close>. The spec: ``state (enum: Unvisited/Visited/Tagged -- at
  minimum)''. The controller names \<open>Visited\<close> and \<open>Tagged\<close>.
\<close>

datatype AssetState = Unvisited | Visited | Tagged

text \<open>The region types, as \<^verbatim>\<open>regionTypeToType\<close> lists them.\<close>

datatype RegionType = Rectangle | Polygon | Point | Polyline

record 'n IPoint =
  point_x :: 'n
  point_y :: 'n

record 'n IBoundingBox =
  box_left :: 'n
  box_top :: 'n
  box_width :: 'n
  box_height :: 'n

text \<open>
  A region. Its field \<open>tags\<close> holds an array of tag names, or \<^verbatim>\<open>undefined\<close> (here
  \<open>None\<close>) once \<^verbatim>\<open>applyTags\<close> has stored the value of a call of \<open>toggleTag\<close> in it.
\<close>

record 'n IRegion =
  region_id :: string
  region_type :: RegionType
  tags :: "string list option"
  points :: "'n IPoint list"
  boundingBox :: "'n IBoundingBox"

record IAsset =
  asset_id :: string
  asset_state :: AssetState

record ITag =
  tag_name :: string
  tag_color :: string

text \<open>The geometry that the drawing surface hands to its callbacks.\<close>

record 'n RegionData =
  rd_x :: 'n
  rd_y :: 'n
  rd_width :: 'n
  rd_height :: 'n
  rd_points :: "'n IPoint list"

text \<open>
  Every failure in the controller is a JavaScript exception that unwinds the running
  handler (a \<^verbatim>\<open>TypeError\<close> on reading a property of \<^verbatim>\<open>undefined\<close>, or whatever
  \<^verbatim>\<open>Guard.null\<close> throws). No claim tells the kinds apart, so there is one error value.
\<close>

datatype error = Exception

text \<open>
  Region objects are shared: \<^verbatim>\<open>state.selectedRegions\<close> holds references to the very
  objects of \<^verbatim>\<open>props.selectedAsset.regions\<close>, and \<^verbatim>\<open>applyTags\<close> and
  \<^verbatim>\<open>onRegionMove\<close> write fields of these objects in place. So the objects live in a
  store, \<open>heap\<close>, and the two arrays hold references. \<open>nextRef\<close> is the next unused
  reference.

  The state of the model gathers what a handler of the component can read or write:
  \<^item> \<open>asset\<close>, \<open>regions\<close>: \<^verbatim>\<open>props.selectedAsset\<close>, the host's object that the
    controller mutates in place;
  \<^item> \<open>selectedTags\<close>, \<open>selectedTagsRef\<close>: \<^verbatim>\<open>props.selectedTags\<close> and the identity of
    that array (\<^verbatim>\<open>componentDidUpdate\<close> compares it with \<^verbatim>\<open>!==\<close>);
  \<^item> \<open>selectionMode\<close>: \<^verbatim>\<open>props.selectionMode\<close>, an enumeration value of the drawing
    library;
  \<^item> \<open>selectedRegions\<close>, \<open>multiSelect\<close>: \<^verbatim>\<open>this.state\<close>. The field
    \<^verbatim>\<open>selectedRegions?\<close> is optional, and an element of the array can be
    \<^verbatim>\<open>undefined\<close> (after an event for an id that the asset does not hold);
  \<^item> \<open>clipBoard\<close>: the snapshot in \<^verbatim>\<open>this.clipBoard\<close>;
  \<^item> \<open>surface\<close>, \<open>surfaceSelectionMode\<close>: the drawing surface \<^verbatim>\<open>this.editor\<close>, an
    external library. Of its regions only the ids are tracked, in the order they were added;
  \<^item> \<open>notified\<close>: the arguments of the calls of \<^verbatim>\<open>props.onAssetMetadataChanged\<close>
    so far, each the asset and the region array as they were at the call, or \<open>None\<close> for
    \<^verbatim>\<open>undefined\<close>.

  \<^verbatim>\<open>this.setState(update, callback)\<close> is modelled where the source has it: the update
  takes effect at the call and the callback runs at once, before the statements that
  follow the call. An exception of the callback unwinds the handler from there.
\<close>

type_synonym ref = nat

record 'n canvas =
  heap :: "ref \<Rightarrow> 'n IRegion"
  nextRef :: ref
  asset :: IAsset
  regions :: "ref list"
  selectedTags :: "string list option"
  selectedTagsRef :: nat
  selectionMode :: nat
  selectedRegions :: "ref option list option"
  multiSelect :: bool
  clipBoard :: "'n IRegion option list option"
  surface :: "string list"
  surfaceSelectionMode :: nat
  notified :: "(IAsset \<times> ref list) option list"

text \<open>
  What \<^verbatim>\<open>componentDidUpdate\<close> reads of the previous props.
\<close>

record prevProps =
  prev_asset_id :: string
  prev_selectionMode :: nat
  prev_selectedTagsRef :: nat

text \<open>
  A \<^verbatim>\<open>for (const x of xs)\<close> loop over the elements that the array holds when the loop
  starts. An exception in the body ends the loop and leaves the state as it was then.
\<close>

fun forEach :: "('a \<Rightarrow> 's \<Rightarrow> error option \<times> 's) \<Rightarrow> 'a list \<Rightarrow> 's \<Rightarrow> error option \<times> 's" where
  "forEach body [] s = (None, s)"
| "forEach body (x # xs) s =
     (case body x s of
        (None, s') \<Rightarrow> forEach body xs s'
      | (Some e, s') \<Rightarrow> (Some e, s'))"

text \<open>\<^verbatim>\<open>this.props.onAssetMetadataChanged(m)\<close>, and the value of \<^verbatim>\<open>this.props.selectedAsset\<close>.\<close>

definition onAssetMetadataChanged :: "(IAsset \<times> ref list) option \<Rightarrow> 'n canvas \<Rightarrow> 'n canvas" where
  "onAssetMetadataChanged m s = s\<lparr>notified := notified s @ [m]\<rparr>"

definition selectedAsset :: "'n canvas \<Rightarrow> (IAsset \<times> ref list) option" where
  "selectedAsset s = Some (asset s, regions s)"

section \<open>CanvasHelpers: the tag descriptor\<close>

text \<open>
  \<^verbatim>\<open>getTagsDescriptor(projectTags: ITag[], region: IRegion)\<close>. Every call in the
  controller passes one argument, the region, so there the parameter \<open>projectTags\<close>
  holds a region object and the parameter \<open>region\<close> is \<^verbatim>\<open>undefined\<close>. The first
  parameter is therefore a sum (tag definitions or a region object) and the second one
  optional.

  \<^verbatim>\<open>Guard\<close> is not among the sources. \<^verbatim>\<open>Guard.null(v)\<close> is taken to return when \<open>v\<close>
  is an object; when \<open>region\<close> is \<^verbatim>\<open>undefined\<close> the call ends in an exception whether
  \<^verbatim>\<open>Guard.null(region)\<close> throws or returns, because the next statement reads
  \<^verbatim>\<open>region.tags\<close>.

  The result lists name and colour of each tag of the region that the project defines.
\<close>

fun descriptorTags :: "ITag list + 'n IRegion \<Rightarrow> string list \<Rightarrow> error + (string \<times> string) list" where
  "descriptorTags projectTags [] = Inr []"
| "descriptorTags projectTags (tagName # rest) =
     (case projectTags of
        Inr _ \<Rightarrow> Inl Exception
      | Inl defs \<Rightarrow>
          (case descriptorTags projectTags rest of
             Inl e \<Rightarrow> Inl e
           | Inr ds \<Rightarrow>
               (case array_find (\<lambda>projectTag. tag_name projectTag = tagName) defs of
                  None \<Rightarrow> Inr ds
                | Some projectTag \<Rightarrow> Inr ((tag_name projectTag, tag_color projectTag) # ds))))"

definition getTagsDescriptor ::
  "ITag list + 'n IRegion \<Rightarrow> 'n IRegion option \<Rightarrow> error + (string \<times> string) list" where
  "getTagsDescriptor projectTags region =
     (case region of
        None \<Rightarrow> Inl Exception
      | Some r \<Rightarrow>
          (case tags r of
             None \<Rightarrow> Inl Exception
           | Some ts \<Rightarrow> descriptorTags projectTags ts))"

section \<open>The clipboard and the duplicates of a paste\<close>

text \<open>
  Modelled from the spec: the class \<^verbatim>\<open>ClipBoard\<close> (\<^verbatim>\<open>common/clipboard\<close>) is not
  among the sources. The spec: ``holds at most one snapshot of a region collection'';
  \<open>set(value)\<close> ``stores a snapshot (deep enough that later mutation of the live regions
  does not alter the stored snapshot)''; \<open>get()\<close> ``returns the last stored snapshot or an
  empty/absent marker if none has ever been set; does not clear on read''; ``single-slot,
  last-write-wins''. The snapshot holds region values, not references.
\<close>

definition ClipBoard_set :: "'v \<Rightarrow> 'v option \<Rightarrow> 'v option" where
  "ClipBoard_set v slot = Some v"

definition ClipBoard_get :: "'v option \<Rightarrow> 'v option" where
  "ClipBoard_get slot = slot"

text \<open>
  Modelled from the spec: \<^verbatim>\<open>CanvasHelpers.duplicateAndTransformRegions\<close> is not in
  \<^verbatim>\<open>canvasHelpers.ts\<close>. The spec (\<open>duplicateWithOffset\<close>): ``for each input region,
  produce a deep copy with a freshly generated id, with boundingBox.left/top and every point
  shifted by a fixed pixel offset (a paste margin), such that pasted regions never exactly
  overlap their source and never collide in id with existingRegions''. The generator of
  ids is external; here a new id is one character longer than every id in use. The
  offset is the constant \<^verbatim>\<open>CanvasHelpers.pasteMargin\<close>, whose value is not in the
  sources: a parameter.
\<close>

definition freshId :: "string list \<Rightarrow> string" where
  "freshId used = replicate (Suc (foldr max (map length used) 0)) (CHR ''r'')"

definition shiftPoint :: "'n::plus \<Rightarrow> 'n IPoint \<Rightarrow> 'n IPoint" where
  "shiftPoint offset p = p\<lparr>point_x := point_x p + offset, point_y := point_y p + offset\<rparr>"

definition duplicateWithOffset :: "'n::plus \<Rightarrow> string list \<Rightarrow> 'n IRegion \<Rightarrow> 'n IRegion" where
  "duplicateWithOffset offset used region =
     region\<lparr>region_id := freshId used,
            boundingBox := (boundingBox region)
              \<lparr>box_left := box_left (boundingBox region) + offset,
               box_top := box_top (boundingBox region) + offset\<rparr>,
            points := map (shiftPoint offset) (points region)\<rparr>"

fun duplicateEach ::
  "'n::plus \<Rightarrow> 'n IRegion option list \<Rightarrow> string list \<Rightarrow> error + 'n IRegion list" where
  "duplicateEach offset [] used = Inr []"
| "duplicateEach offset (None # rest) used = Inl Exception"
| "duplicateEach offset (Some region # rest) used =
     (let copy = duplicateWithOffset offset used region
      in case duplicateEach offset rest (region_id copy # used) of
           Inl e \<Rightarrow> Inl e
         | Inr copies \<Rightarrow> Inr (copy # copies))"

definition duplicateAndTransformRegions ::
  "'n::plus \<Rightarrow> 'n IRegion option list \<Rightarrow> 'n IRegion list \<Rightarrow> error + 'n IRegion list" where
  "duplicateAndTransformRegions pasteMargin regs others =
     duplicateEach pasteMargin regs (map region_id others)"

section \<open>The canvas controller\<close>

text \<open>Writes to a field of a region object: \<^verbatim>\<open>region.tags = v\<close>, \<^verbatim>\<open>region.points = v\<close>.\<close>

definition setTags :: "ref \<Rightarrow> string list option \<Rightarrow> 'n canvas \<Rightarrow> 'n canvas" where
  "setTags a v s = s\<lparr>heap := (heap s)(a := (heap s a)\<lparr>tags := v\<rparr>)\<rparr>"

definition setPoints :: "ref \<Rightarrow> 'n IPoint list \<Rightarrow> 'n canvas \<Rightarrow> 'n canvas" where
  "setPoints a v s = s\<lparr>heap := (heap s)(a := (heap s a)\<lparr>points := v\<rparr>)\<rparr>"

text \<open>
  \<^verbatim>\<open>xs[i]\<close>: the element at \<open>i\<close>, and \<^verbatim>\<open>undefined\<close> when \<open>i\<close> names no element
  (the \<open>-1\<close> of \<open>findIndex\<close>, or an index beyond the end).
\<close>

definition array_get :: "'a list \<Rightarrow> int \<Rightarrow> 'a option" where
  "array_get xs i = (if 0 \<le> i \<and> i < int (length xs) then Some (xs ! nat i) else None)"

subsection \<open>applyTags\<close>

text \<open>
  The inner loop of \<^verbatim>\<open>applyTags\<close>, for one region:
  \<^verbatim>\<open>for (const tag of this.props.selectedTags) { region.tags = CanvasHelpers.toggleTag(region.tags, tag); }\<close>
  The call changes the array that \<^verbatim>\<open>region.tags\<close> refers to in place (its contents
  become \<open>toggleTag arr tag\<close>) and returns no value; the assignment then stores that
  value, \<^verbatim>\<open>undefined\<close>, in \<^verbatim>\<open>region.tags\<close>, and the array is referred to no longer.
  In the next round \<open>toggleTag\<close> receives \<^verbatim>\<open>undefined\<close> and \<^verbatim>\<open>tags.findIndex\<close>
  throws.
\<close>

fun toggleEach :: "ref \<Rightarrow> string list \<Rightarrow> 'n canvas \<Rightarrow> error option \<times> 'n canvas" where
  "toggleEach region [] s = (None, s)"
| "toggleEach region (tag # rest) s =
     (case tags (heap s region) of
        None \<Rightarrow> (Some Exception, s)
      | Some arr \<Rightarrow>
          (let contents = toggleTag arr tag;
               returned = None
           in toggleEach region rest (setTags region returned s)))"

text \<open>\<^verbatim>\<open>!this.props.selectedTags || !this.props.selectedTags.length\<close>\<close>

fun noTags :: "string list option \<Rightarrow> bool" where
  "noTags None = True"
| "noTags (Some ts) = (ts = [])"

text \<open>
  The body of the outer loop of \<^verbatim>\<open>applyTags\<close>, for one element of
  \<^verbatim>\<open>state.selectedRegions\<close>. An element that is \<^verbatim>\<open>undefined\<close> has no field
  \<^verbatim>\<open>tags\<close>. The last statement evaluates \<^verbatim>\<open>CanvasHelpers.getTagsDescriptor(region)\<close>
  before it can call \<^verbatim>\<open>updateTagsById\<close>, which leaves the ids on the surface as
  they are.
\<close>

definition applyTags_region :: "ref option \<Rightarrow> 'n canvas \<Rightarrow> error option \<times> 'n canvas" where
  "applyTags_region region s =
     (case region of
        None \<Rightarrow> (Some Exception, s)
      | Some a \<Rightarrow>
          (case (if noTags (selectedTags s) then (None, setTags a (Some []) s)
                 else toggleEach a (the (selectedTags s)) s) of
             (Some e, s1) \<Rightarrow> (Some e, s1)
           | (None, s1) \<Rightarrow>
               (case getTagsDescriptor (Inr (heap s1 a)) None of
                  Inl e \<Rightarrow> (Some e, s1)
                | Inr descriptor \<Rightarrow> (None, s1))))"

text \<open>
  \<^verbatim>\<open>applyTags\<close>: the loop over \<^verbatim>\<open>state.selectedRegions\<close> (iterating
  \<^verbatim>\<open>undefined\<close> throws), then the notification of the host.
\<close>

definition applyTags :: "'n canvas \<Rightarrow> error option \<times> 'n canvas" where
  "applyTags s =
     (case selectedRegions s of
        None \<Rightarrow> (Some Exception, s)
      | Some sel \<Rightarrow>
          (case forEach applyTags_region sel s of
             (Some e, s1) \<Rightarrow> (Some e, s1)
           | (None, s1) \<Rightarrow> (None, onAssetMetadataChanged (selectedAsset s1) s1)))"

subsection \<open>Selection\<close>

text \<open>
  \<^verbatim>\<open>selectedRegions.find((r) => r.id === selectedRegion.id)\<close>: the callback runs for
  each element until one matches; it throws when the element or \<open>selectedRegion\<close> is
  \<^verbatim>\<open>undefined\<close>. On an empty array the callback never runs.
\<close>

fun findSelected :: "(ref \<Rightarrow> 'n IRegion) \<Rightarrow> ref option \<Rightarrow> ref option list \<Rightarrow> error + ref option" where
  "findSelected h selectedRegion [] = Inr None"
| "findSelected h selectedRegion (r # rs) =
     (case r of
        None \<Rightarrow> Inl Exception
      | Some a \<Rightarrow>
          (case selectedRegion of
             None \<Rightarrow> Inl Exception
           | Some b \<Rightarrow>
               (if region_id (h a) = region_id (h b) then Inr (Some a)
                else findSelected h selectedRegion rs)))"

text \<open>
  \<^verbatim>\<open>onRegionSelected(id)\<close>. In multi-select mode \<^verbatim>\<open>push\<close> extends the array of the
  state in place; an exception leaves the state as it was.
\<close>

definition onRegionSelected :: "string \<Rightarrow> 'n canvas \<Rightarrow> error option \<times> 'n canvas" where
  "onRegionSelected rid s =
     (let selectedRegion = array_find (\<lambda>region. region_id (heap s region) = rid) (regions s)
      in if multiSelect s then
           (case selectedRegions s of
              None \<Rightarrow> (Some Exception, s)
            | Some sel \<Rightarrow>
                (case findSelected (heap s) selectedRegion sel of
                   Inl e \<Rightarrow> (Some e, s)
                 | Inr found \<Rightarrow>
                     (None, s\<lparr>selectedRegions :=
                        Some (if found = None then sel @ [selectedRegion] else sel)\<rparr>)))
         else (None, s\<lparr>selectedRegions := Some [selectedRegion]\<rparr>))"

definition setMultiSelect :: "bool \<Rightarrow> 'n canvas \<Rightarrow> 'n canvas" where
  "setMultiSelect b s = (if b \<noteq> multiSelect s then s\<lparr>multiSelect := b\<rparr> else s)"

subsection \<open>Regions of the asset\<close>

text \<open>
  \<^verbatim>\<open>addRegionToAsset(region)\<close>: the object \<open>region\<close> becomes reachable from the asset
  here, so this is where the model gives it a reference.
\<close>

definition addRegionToAsset :: "'n IRegion \<Rightarrow> 'n canvas \<Rightarrow> 'n canvas" where
  "addRegionToAsset region s =
     (let a = nextRef s;
          s1 = s\<lparr>heap := (heap s)(a := region), nextRef := Suc a, regions := regions s @ [a]\<rparr>
      in if regions s1 \<noteq> [] then s1\<lparr>asset := (asset s1)\<lparr>asset_state := Tagged\<rparr>\<rparr> else s1)"

text \<open>
  \<^verbatim>\<open>deleteRegionFromAsset(id)\<close>: the index that \<open>findIndex\<close> returned goes to
  \<open>splice\<close> as it is.
\<close>

definition deleteRegionFromAsset :: "string \<Rightarrow> 'n canvas \<Rightarrow> 'n canvas" where
  "deleteRegionFromAsset rid s =
     (let deletedRegionIndex = array_findIndex (\<lambda>region. region_id (heap s region) = rid) (regions s);
          s1 = s\<lparr>regions := array_splice deletedRegionIndex 1 (regions s)\<rparr>
      in if regions s1 = [] then s1\<lparr>asset := (asset s1)\<lparr>asset_state := Visited\<rparr>\<rparr> else s1)"

text \<open>
  \<^verbatim>\<open>onRegionDelete(id)\<close>. \<^verbatim>\<open>editor.RM.deleteRegionById(id)\<close> takes the id off the
  surface.
\<close>

definition onRegionDelete :: "string \<Rightarrow> 'n canvas \<Rightarrow> 'n canvas" where
  "onRegionDelete rid s =
     (let s1 = s\<lparr>surface := filter (\<lambda>i. i \<noteq> rid) (surface s)\<rparr>;
          s2 = deleteRegionFromAsset rid s1;
          s3 = onAssetMetadataChanged (selectedAsset s2) s2
      in s3\<lparr>selectedRegions := Some []\<rparr>)"

text \<open>
  \<^verbatim>\<open>onRegionMove(id, regionData)\<close>. \<^verbatim>\<open>editor.scaleRegionToSourceSize\<close> belongs to the
  drawing library and is a parameter. \<open>movedRegion\<close> is \<^verbatim>\<open>undefined\<close> exactly when the
  index is \<open>-1\<close>; the assignment \<^verbatim>\<open>regions[-1] = undefined\<close> then creates a property
  named \<open>-1\<close>, which is no element of the array: its length and its elements stay as
  they are. Otherwise the assignment stores the reference where it was read.
\<close>

definition onRegionMove ::
  "('n RegionData \<Rightarrow> 'n RegionData) \<Rightarrow> string \<Rightarrow> 'n RegionData \<Rightarrow> 'n canvas \<Rightarrow> 'n canvas" where
  "onRegionMove scaleRegionToSourceSize rid regionData s =
     (let movedRegionIndex = array_findIndex (\<lambda>region. region_id (heap s region) = rid) (regions s);
          movedRegion = array_get (regions s) movedRegionIndex;
          scaledRegionData = scaleRegionToSourceSize regionData;
          s1 = (case movedRegion of
                  None \<Rightarrow> s
                | Some a \<Rightarrow> setPoints a (rd_points scaledRegionData) s);
          s2 = (case movedRegion of
                  None \<Rightarrow> s1
                | Some a \<Rightarrow> s1\<lparr>regions := (regions s1)[nat movedRegionIndex := a]\<rparr>);
          s3 = s2\<lparr>selectedRegions := Some [movedRegion]\<rparr>
      in onAssetMetadataChanged (selectedAsset s3) s3)"


subsection \<open>Copy, cut, paste, clear\<close>

text \<open>
  \<^verbatim>\<open>copyRegions\<close>: the test \<^verbatim>\<open>if (this.state.selectedRegions)\<close> is on the array
  itself, and every array is truthy, the empty one too.
\<close>

definition copyRegions :: "'n canvas \<Rightarrow> 'n canvas" where
  "copyRegions s =
     (case selectedRegions s of
        None \<Rightarrow> s
      | Some sel \<Rightarrow> s\<lparr>clipBoard := ClipBoard_set (map (map_option (heap s)) sel) (clipBoard s)\<rparr>)"


text \<open>
  The body of the loop of \<^verbatim>\<open>addRegions\<close>. The arguments of
  \<^verbatim>\<open>editor.RM.addRegion\<close> are evaluated first, the last of them
  \<^verbatim>\<open>CanvasHelpers.getTagsDescriptor(region)\<close>; only then is the region drawn and added
  to the asset. (\<^verbatim>\<open>getRegionData\<close> and \<^verbatim>\<open>scaleRegionToFrameSize\<close> compute the
  geometry for the surface, which the model does not track.)
\<close>

definition addRegions_region :: "'n IRegion \<Rightarrow> 'n canvas \<Rightarrow> error option \<times> 'n canvas" where
  "addRegions_region region s =
     (case getTagsDescriptor (Inr region) None of
        Inl e \<Rightarrow> (Some e, s)
      | Inr descriptor \<Rightarrow>
          (None, addRegionToAsset region (s\<lparr>surface := surface s @ [region_id region]\<rparr>)))"

text \<open>
  \<^verbatim>\<open>addRegions(regions)\<close>: \<open>currentAssetMetadata\<close> is still \<^verbatim>\<open>undefined\<close> after a
  loop over no region.
\<close>

definition addRegions :: "'n IRegion list \<Rightarrow> 'n canvas \<Rightarrow> error option \<times> 'n canvas" where
  "addRegions regs s =
     (case forEach addRegions_region regs s of
        (Some e, s1) \<Rightarrow> (Some e, s1)
      | (None, s1) \<Rightarrow>
          (None, onAssetMetadataChanged (if regs = [] then None else selectedAsset s1) s1))"

definition pasteRegions :: "'n::plus \<Rightarrow> 'n canvas \<Rightarrow> error option \<times> 'n canvas" where
  "pasteRegions pasteMargin s =
     (case ClipBoard_get (clipBoard s) of
        None \<Rightarrow> (None, s)
      | Some regs \<Rightarrow>
          (case duplicateAndTransformRegions pasteMargin regs (map (heap s) (regions s)) of
             Inl e \<Rightarrow> (Some e, s)
           | Inr newRegions \<Rightarrow> addRegions newRegions s))"


subsection \<open>Select-all and the change of props\<close>

definition clearAllRegions :: "'n canvas \<Rightarrow> 'n canvas" where
  "clearAllRegions s = s\<lparr>surface := []\<rparr>"

text \<open>
  \<^verbatim>\<open>selectAllRegions\<close>: the selection becomes the region array of the asset, then
  \<^verbatim>\<open>applyTags\<close> runs as the callback. In the source the state then holds the asset's
  array itself; the model copies its references. The two differ only when the asset's
  array changes while it is the selection (a cut after select-all iterates over the array
  it deletes from); the theorem on the asset state below holds for every sequence of
  deletes for that reason.
\<close>

definition selectAllRegions :: "'n canvas \<Rightarrow> error option \<times> 'n canvas" where
  "selectAllRegions s = applyTags (s\<lparr>selectedRegions := Some (map Some (regions s))\<rparr>)"

text \<open>
  \<^verbatim>\<open>componentDidUpdate(prevProps)\<close>: the state holds the props as they are now.
\<close>

definition componentDidUpdate :: "prevProps \<Rightarrow> 'n canvas \<Rightarrow> error option \<times> 'n canvas" where
  "componentDidUpdate prev s =
     (let s1 = (if asset_id (asset s) \<noteq> prev_asset_id prev then
                  (let c = clearAllRegions s
                   in if regions c \<noteq> [] then c\<lparr>selectedRegions := Some []\<rparr> else c)
                else s);
          s2 = (if selectionMode s1 \<noteq> prev_selectionMode prev
                then s1\<lparr>surfaceSelectionMode := selectionMode s1\<rparr> else s1)
      in if selectedTagsRef s2 \<noteq> prev_selectedTagsRef prev then applyTags s2 else (None, s2))"

subsection \<open>Sequences of selection events\<close>

text \<open>
  The events that change the selection by clicks: the surface reports a selected region,
  and the Shift key goes down (\<open>True\<close>) or up (\<open>False\<close>). A run handles the events in
  order and ends at the first exception.
\<close>

datatype event = RegionSelected string | Shift bool

fun handleEvent :: "event \<Rightarrow> 'n canvas \<Rightarrow> error option \<times> 'n canvas" where
  "handleEvent (RegionSelected rid) s = onRegionSelected rid s"
| "handleEvent (Shift b) s = (None, setMultiSelect b s)"

definition run :: "event list \<Rightarrow> 'n canvas \<Rightarrow> error option \<times> 'n canvas" where
  "run events s = forEach handleEvent events s"

text \<open>The ids of the regions of the asset, and of the regions selected.\<close>

definition assetIds :: "'n canvas \<Rightarrow> string list" where
  "assetIds s = map (\<lambda>r. region_id (heap s r)) (regions s)"

text \<open>
  The state that the claims on the asset state speak of: the region collection is
  non-empty exactly when the asset is \<open>Tagged\<close>.
\<close>

definition taggedIffRegions :: "'n canvas \<Rightarrow> bool" where
  "taggedIffRegions s = ((regions s \<noteq> []) = (asset_state (asset s) = Tagged))"

subsection \<open>Predicates of the claims, and a test state\<close>

text \<open>
  The selection is well formed: the array exists, no element is \<^verbatim>\<open>undefined\<close>, and
  the ids of the selected regions are pairwise distinct. The component starts with the
  empty selection, which is well formed.
\<close>

definition selectionDistinct :: "'n canvas \<Rightarrow> bool" where
  "selectionDistinct s =
     (case selectedRegions s of
        None \<Rightarrow> False
      | Some sel \<Rightarrow>
          list_all (\<lambda>r. r \<noteq> None) sel
          \<and> distinct (map (\<lambda>r. region_id (heap s (the r))) sel))"

text \<open>An event refers to a region of the asset, given the ids of the asset's regions.\<close>

fun eventInAsset :: "string list \<Rightarrow> event \<Rightarrow> bool" where
  "eventInAsset ids (RegionSelected rid) = (rid \<in> set ids)"
| "eventInAsset ids (Shift b) = True"

definition selectedIds :: "'n canvas \<Rightarrow> string list" where
  "selectedIds s = map (\<lambda>r. region_id (heap s (the r))) (the (selectedRegions s))"

text \<open>
  A state in the manner of the component's tests: an asset with the regions \<open>test1\<close>
  (tagged \<open>dog\<close>) and \<open>test2\<close>, the first one selected, the tag \<open>cat\<close> armed, and a
  copy of \<open>test1\<close> on the clipboard.
\<close>

definition testRegion :: "string \<Rightarrow> string list \<Rightarrow> int IRegion" where
  "testRegion rid ts =
     \<lparr>region_id = rid, region_type = Rectangle, tags = Some ts,
      points = [\<lparr>point_x = 0, point_y = 0\<rparr>, \<lparr>point_x = 1, point_y = 1\<rparr>],
      boundingBox = \<lparr>box_left = 0, box_top = 0, box_width = 1, box_height = 1\<rparr>\<rparr>"

definition testCanvas :: "int canvas" where
  "testCanvas =
     \<lparr>heap = (\<lambda>_. testRegion ''none'' [])
               (0 := testRegion ''test1'' [''dog''], 1 := testRegion ''test2'' []),
      nextRef = 2,
      asset = \<lparr>asset_id = ''asset-1'', asset_state = Tagged\<rparr>,
      regions = [0, 1],
      selectedTags = Some [''cat''],
      selectedTagsRef = 0,
      selectionMode = 0,
      selectedRegions = Some [Some 0],
      multiSelect = False,
      clipBoard = Some [Some (testRegion ''test1'' [''dog''])],
      surface = [''test1'', ''test2''],
      surfaceSelectionMode = 0,
      notified = []\<rparr>"

section \<open>Facts about the array operations\<close>

lemma array_findIndex_range: "- 1 \<le> array_findIndex p xs \<and> array_findIndex p xs < int (length xs)"
  by (induction xs) (auto simp: Let_def)

lemma array_findIndex_absent: "array_findIndex p xs = - 1 \<longleftrightarrow> (\<forall>x \<in> set xs. \<not> p x)"
proof (induction xs)
  case Nil
  show ?case by simp
next
  case (Cons x xs)
  have "- 1 \<le> array_findIndex p xs" using array_findIndex_range [of p xs] by simp
  with Cons show ?case by (auto simp: Let_def)
qed

lemma array_findIndex_eq: "array_findIndex (\<lambda>y. y = a) xs = - 1 \<longleftrightarrow> a \<notin> set xs"
  by (auto simp: array_findIndex_absent)

lemma splice_one_at_found:
  "a \<in> set xs \<Longrightarrow> array_splice (array_findIndex (\<lambda>y. y = a) xs) (Suc 0) xs = remove1 a xs"
proof (induction xs)
  case Nil
  then show ?case by simp
next
  case (Cons x xs)
  show ?case
  proof (cases "x = a")
    case True
    then show ?thesis by (simp add: array_splice_def)
  next
    case False
    with Cons.prems have mem: "a \<in> set xs" by simp
    then have ne: "array_findIndex (\<lambda>y. y = a) xs \<noteq> - 1" by (simp add: array_findIndex_eq)
    have lo: "0 \<le> array_findIndex (\<lambda>y. y = a) xs"
      using array_findIndex_range [of "\<lambda>y. y = a" xs] ne by linarith
    have hi: "array_findIndex (\<lambda>y. y = a) xs < int (length xs)"
      using array_findIndex_range [of "\<lambda>y. y = a" xs] by simp
    have ih: "array_splice (array_findIndex (\<lambda>y. y = a) xs) (Suc 0) xs = remove1 a xs"
      using Cons.IH [OF mem] .
    have step: "nat (array_findIndex (\<lambda>y. y = a) xs + 1) = Suc (nat (array_findIndex (\<lambda>y. y = a) xs))"
      using lo by simp
    from False ne lo hi ih step show ?thesis
      by (simp add: array_splice_def Let_def min_def)
  qed
qed

lemma toggleTag_absent: "t \<notin> set ts \<Longrightarrow> toggleTag ts t = ts @ [t]"
  by (simp add: toggleTag_def array_findIndex_eq)

lemma toggleTag_present: "t \<in> set ts \<Longrightarrow> toggleTag ts t = remove1 t ts"
  by (simp add: toggleTag_def array_findIndex_eq splice_one_at_found)

lemma find_tag_present: "t \<in> set ts \<Longrightarrow> find_tag ts t = Some t"
  unfolding find_tag_def by (induction ts) auto

lemma find_tag_absent: "t \<notin> set ts \<Longrightarrow> find_tag ts t = None"
  unfolding find_tag_def by (induction ts) auto

section \<open>Claims about the tag helpers\<close>

text \<open>
  C6. For a duplicate-free tag list, one call of \<open>toggleTag\<close> appends the tag when it is
  absent and removes its only occurrence when it is present, and two calls in succession
  with the same tag name give back a list with the original members.
\<close>

theorem toggleTag_twice:
  assumes "distinct ts"
  shows "set (toggleTag (toggleTag ts t) t) = set ts
       \<and> (t \<notin> set ts \<longrightarrow> toggleTag ts t = ts @ [t])
       \<and> (t \<in> set ts \<longrightarrow>
            toggleTag ts t = remove1 t ts
          \<and> t \<notin> set (toggleTag ts t)
          \<and> set (toggleTag ts t) = set ts - {t})"
proof (cases "t \<in> set ts")
  case True
  have one: "toggleTag ts t = remove1 t ts" using True by (rule toggleTag_present)
  have gone: "t \<notin> set (remove1 t ts)" using assms by simp
  have rest: "set (remove1 t ts) = set ts - {t}" using assms by simp
  have two: "toggleTag (remove1 t ts) t = remove1 t ts @ [t]"
    using gone by (rule toggleTag_absent)
  from True one gone rest two show ?thesis by auto
next
  case False
  have one: "toggleTag ts t = ts @ [t]" using False by (rule toggleTag_absent)
  have two: "toggleTag (ts @ [t]) t = remove1 t (ts @ [t])"
    by (rule toggleTag_present) simp
  have restored: "remove1 t (ts @ [t]) = ts" using False by (simp add: remove1_append)
  from False one two restored show ?thesis by simp
qed

theorem toggleTag_twice_witness:
  "distinct [''cat'', ''dog'']
   \<and> toggleTag [''cat'', ''dog''] ''cat'' = [''dog'']
   \<and> toggleTag [''dog''] ''cat'' = [''dog'', ''cat'']
   \<and> set (toggleTag (toggleTag [''cat'', ''dog''] ''cat'') ''cat'') = set [''cat'', ''dog'']"
proof -
  have d: "distinct [''cat'', ''dog'']" by simp
  have e: "toggleTag [''cat'', ''dog''] ''cat'' = [''dog'']"
    using toggleTag_twice [OF d, of "''cat''"] by simp
  have d': "distinct [''dog'']" by simp
  have f: "toggleTag [''dog''] ''cat'' = [''dog'', ''cat'']"
    using toggleTag_twice [OF d', of "''cat''"] by simp
  show ?thesis using d e f toggleTag_twice [OF d, of "''cat''"] by auto
qed

text \<open>
  C10. For every tag list and every non-empty tag name that the list already holds,
  \<open>addIfMissing\<close> leaves the list as it is, so a duplicate-free list stays duplicate-free.
  The empty tag name is not covered: presence is decided by the truthiness of the element
  found, and the empty string is falsy, so \<open>addIfMissing\<close> appends it a second time.
\<close>

theorem addIfMissing_nonempty_present:
  "(t \<noteq> [] \<and> t \<in> set ts \<longrightarrow> addIfMissing ts t = ts)
   \<and> (t \<noteq> [] \<and> distinct ts \<longrightarrow> distinct (addIfMissing ts t))
   \<and> addIfMissing [[]] [] = [[], []]"
proof (intro conjI impI)
  assume a: "t \<noteq> [] \<and> t \<in> set ts"
  then have "find_tag ts t = Some t" by (simp add: find_tag_present)
  with a show "addIfMissing ts t = ts" by (simp add: addIfMissing_def)
next
  assume a: "t \<noteq> [] \<and> distinct ts"
  show "distinct (addIfMissing ts t)"
  proof (cases "t \<in> set ts")
    case True
    then have "find_tag ts t = Some t" by (simp add: find_tag_present)
    with a show ?thesis by (simp add: addIfMissing_def)
  next
    case False
    then have "find_tag ts t = None" by (simp add: find_tag_absent)
    with a False show ?thesis by (simp add: addIfMissing_def)
  qed
next
  show "addIfMissing [[]] [] = [[], []]" by (simp add: addIfMissing_def find_tag_def)
qed

theorem addIfMissing_nonempty_present_witness:
  "''cat'' \<noteq> [] \<and> ''cat'' \<in> set [''dog'', ''cat'']
   \<and> addIfMissing [''dog'', ''cat''] ''cat'' = [''dog'', ''cat'']
   \<and> distinct (addIfMissing [''dog'', ''cat''] ''cat'')
   \<and> addIfMissing [''''] '''' = ['''', '''']"
  using addIfMissing_nonempty_present [of "''cat''" "[''dog'', ''cat'']"] by simp

section \<open>Facts about the controller\<close>

subsection \<open>What applyTags leaves alone\<close>

lemma forEach_heap_only:
  assumes "\<And>x s. (snd (body x s))\<lparr>heap := k\<rparr> = s\<lparr>heap := k\<rparr>"
  shows "(snd (forEach body xs s))\<lparr>heap := k\<rparr> = s\<lparr>heap := k\<rparr>"
proof (induction xs arbitrary: s)
  case Nil
  show ?case by simp
next
  case (Cons x xs)
  obtain e s1 where b: "body x s = (e, s1)" by (cases "body x s")
  have s1: "s1\<lparr>heap := k\<rparr> = s\<lparr>heap := k\<rparr>" using assms [of x s] b by simp
  show ?case
  proof (cases e)
    case None
    have "(snd (forEach body xs s1))\<lparr>heap := k\<rparr> = s1\<lparr>heap := k\<rparr>" by (rule Cons.IH)
    with s1 b None show ?thesis by simp
  next
    case (Some err)
    with b s1 show ?thesis by simp
  qed
qed

lemma toggleEach_heap_only: "(snd (toggleEach a ts s))\<lparr>heap := k\<rparr> = s\<lparr>heap := k\<rparr>"
proof (induction ts arbitrary: s)
  case Nil
  show ?case by simp
next
  case (Cons t ts)
  show ?case
  proof (cases "tags (heap s a)")
    case None
    then show ?thesis by simp
  next
    case (Some arr)
    have "(snd (toggleEach a ts (setTags a None s)))\<lparr>heap := k\<rparr> = (setTags a None s)\<lparr>heap := k\<rparr>"
      by (rule Cons.IH)
    then show ?thesis using Some by (simp add: setTags_def)
  qed
qed

lemma applyTags_region_heap_only: "(snd (applyTags_region r s))\<lparr>heap := k\<rparr> = s\<lparr>heap := k\<rparr>"
proof (cases r)
  case None
  then show ?thesis by (simp add: applyTags_region_def)
next
  case (Some a)
  show ?thesis
  proof (cases "noTags (selectedTags s)")
    case True
    with Some show ?thesis
      by (simp add: applyTags_region_def setTags_def getTagsDescriptor_def)
  next
    case False
    obtain e s1 where t: "toggleEach a (the (selectedTags s)) s = (e, s1)"
      by (cases "toggleEach a (the (selectedTags s)) s")
    have s1: "s1\<lparr>heap := k\<rparr> = s\<lparr>heap := k\<rparr>"
      using toggleEach_heap_only [where a = a and ts = "the (selectedTags s)" and s = s and k = k] t by simp
    from Some False t s1 show ?thesis
      by (cases e) (simp_all add: applyTags_region_def getTagsDescriptor_def)
  qed
qed

lemma applyTags_frame:
  "(snd (applyTags s))\<lparr>heap := k, notified := n\<rparr> = s\<lparr>heap := k, notified := n\<rparr>"
proof (cases "selectedRegions s")
  case None
  then show ?thesis by (simp add: applyTags_def)
next
  case (Some sel)
  obtain e s1 where f: "forEach applyTags_region sel s = (e, s1)"
    by (cases "forEach applyTags_region sel s")
  have "s1\<lparr>heap := k\<rparr> = s\<lparr>heap := k\<rparr>"
    using forEach_heap_only [where body = applyTags_region and k = k and xs = sel and s = s, OF applyTags_region_heap_only] f by simp
  then have s1: "s1\<lparr>heap := k, notified := n\<rparr> = s\<lparr>heap := k, notified := n\<rparr>"
    by (rule arg_cong [where f = "\<lambda>z. z\<lparr>notified := n\<rparr>"])
  from Some f s1 show ?thesis
    by (cases e) (simp_all add: applyTags_def onAssetMetadataChanged_def)
qed

lemma applyTags_keeps:
  "regions (snd (applyTags s)) = regions s"
  "asset (snd (applyTags s)) = asset s"
  "selectedRegions (snd (applyTags s)) = selectedRegions s"
  "surface (snd (applyTags s)) = surface s"
  "clipBoard (snd (applyTags s)) = clipBoard s"
proof -
  have eq: "(snd (applyTags s))\<lparr>heap := heap s, notified := []\<rparr> = s\<lparr>heap := heap s, notified := []\<rparr>"
    by (rule applyTags_frame)
  have "regions ((snd (applyTags s))\<lparr>heap := heap s, notified := []\<rparr>) = regions s"
    by (simp only: eq) simp
  then show "regions (snd (applyTags s)) = regions s" by simp
  have "asset ((snd (applyTags s))\<lparr>heap := heap s, notified := []\<rparr>) = asset s"
    by (simp only: eq) simp
  then show "asset (snd (applyTags s)) = asset s" by simp
  have "selectedRegions ((snd (applyTags s))\<lparr>heap := heap s, notified := []\<rparr>) = selectedRegions s"
    by (simp only: eq) simp
  then show "selectedRegions (snd (applyTags s)) = selectedRegions s" by simp
  have "surface ((snd (applyTags s))\<lparr>heap := heap s, notified := []\<rparr>) = surface s"
    by (simp only: eq) simp
  then show "surface (snd (applyTags s)) = surface s" by simp
  have "clipBoard ((snd (applyTags s))\<lparr>heap := heap s, notified := []\<rparr>) = clipBoard s"
    by (simp only: eq) simp
  then show "clipBoard (snd (applyTags s)) = clipBoard s" by simp
qed

subsection \<open>The asset state under additions and removals\<close>

lemma forEach_invariant:
  assumes "\<And>x s. P s \<Longrightarrow> P (snd (body x s))" and "P s"
  shows "P (snd (forEach body xs s))"
  using assms(2)
proof (induction xs arbitrary: s)
  case Nil
  then show ?case by simp
next
  case (Cons x xs)
  obtain e s1 where b: "body x s = (e, s1)" by (cases "body x s")
  have p1: "P s1" using assms(1) [OF Cons.prems, of x] b by simp
  show ?case
  proof (cases e)
    case None
    with b Cons.IH [OF p1] show ?thesis by simp
  next
    case (Some err)
    with b p1 show ?thesis by simp
  qed
qed



lemma addRegionToAsset_tagged:
  "taggedIffRegions (addRegionToAsset region s) \<and> asset_state (asset (addRegionToAsset region s)) = Tagged"
  by (simp add: taggedIffRegions_def addRegionToAsset_def Let_def)




lemma onRegionDelete_fields:
  "regions (onRegionDelete rid s) = regions (deleteRegionFromAsset rid s)"
  "asset (onRegionDelete rid s) = asset (deleteRegionFromAsset rid s)"
  by (simp_all add: onRegionDelete_def deleteRegionFromAsset_def onAssetMetadataChanged_def Let_def)





lemma addRegions_region_tagged:
  assumes "taggedIffRegions s"
  shows "taggedIffRegions (snd (addRegions_region region s))"
  using assms by (simp add: addRegions_region_def addRegionToAsset_tagged split: sum.splits)

lemma addRegions_tagged:
  assumes "taggedIffRegions s"
  shows "taggedIffRegions (snd (addRegions regs s))"
proof -
  have f: "taggedIffRegions (snd (forEach addRegions_region regs s))"
    by (rule forEach_invariant [where P = taggedIffRegions]) (auto simp: addRegions_region_tagged assms)
  obtain e s1 where r: "forEach addRegions_region regs s = (e, s1)"
    by (cases "forEach addRegions_region regs s")
  with f have "taggedIffRegions s1" by simp
  with r show ?thesis
    by (cases e) (simp_all add: addRegions_def onAssetMetadataChanged_def taggedIffRegions_def)
qed

lemma pasteRegions_tagged:
  assumes "taggedIffRegions s"
  shows "taggedIffRegions (snd (pasteRegions m s))"
  using assms by (simp add: pasteRegions_def ClipBoard_get_def addRegions_tagged split: option.splits sum.splits)



subsection \<open>Selection events\<close>

lemma array_find_id:
  "rid \<in> set (map (\<lambda>r. region_id (h r)) rs) \<Longrightarrow>
   \<exists>b. array_find (\<lambda>region. region_id (h region) = rid) rs = Some b \<and> region_id (h b) = rid \<and> b \<in> set rs"
  by (induction rs) auto

lemma findSelected_defined:
  "findSelected h (Some b) (map Some sel)
   = Inr (array_find (\<lambda>a. region_id (h a) = region_id (h b)) sel)"
  by (induction sel) auto

lemma array_find_None: "array_find p xs = None \<longleftrightarrow> (\<forall>x \<in> set xs. \<not> p x)"
  by (induction xs) auto

lemma all_defined: "list_all (\<lambda>r. r \<noteq> None) sel \<Longrightarrow> map Some (map the sel) = sel"
  by (induction sel) auto

lemma onRegionSelected_single:
  assumes "rid \<in> set (assetIds s)" and "\<not> multiSelect s"
  shows "\<exists>b. onRegionSelected rid s = (None, s\<lparr>selectedRegions := Some [Some b]\<rparr>)
           \<and> array_find (\<lambda>region. region_id (heap s region) = rid) (regions s) = Some b
           \<and> region_id (heap s b) = rid \<and> b \<in> set (regions s)"
proof -
  obtain b where "array_find (\<lambda>region. region_id (heap s region) = rid) (regions s) = Some b"
    "region_id (heap s b) = rid" "b \<in> set (regions s)"
    using array_find_id [of rid "heap s" "regions s"] assms(1) by (auto simp: assetIds_def)
  with assms(2) show ?thesis by (simp add: onRegionSelected_def)
qed

lemma onRegionSelected_multi:
  assumes "rid \<in> set (assetIds s)" and "multiSelect s" and "selectionDistinct s"
  shows "\<exists>b. onRegionSelected rid s
              = (None, s\<lparr>selectedRegions :=
                   Some (if rid \<in> set (selectedIds s) then the (selectedRegions s)
                         else the (selectedRegions s) @ [Some b])\<rparr>)
           \<and> array_find (\<lambda>region. region_id (heap s region) = rid) (regions s) = Some b
           \<and> region_id (heap s b) = rid \<and> b \<in> set (regions s)"
proof -
  obtain b where b: "array_find (\<lambda>region. region_id (heap s region) = rid) (regions s) = Some b"
    "region_id (heap s b) = rid" "b \<in> set (regions s)"
    using array_find_id [of rid "heap s" "regions s"] assms(1) by (auto simp: assetIds_def)
  obtain sel where sel: "selectedRegions s = Some sel" "list_all (\<lambda>r. r \<noteq> None) sel"
    using assms(3) by (auto simp: selectionDistinct_def split: option.splits)
  define refs where "refs = map the sel"
  have sel_refs: "sel = map Some refs"
    unfolding refs_def by (rule all_defined [OF sel(2), symmetric])
  have found: "findSelected (heap s) (Some b) sel
               = Inr (array_find (\<lambda>a. region_id (heap s a) = region_id (heap s b)) refs)"
    by (simp add: sel_refs findSelected_defined)
  have ids: "selectedIds s = map (\<lambda>a. region_id (heap s a)) refs"
    by (simp add: selectedIds_def sel(1) sel_refs comp_def)
  have none: "array_find (\<lambda>a. region_id (heap s a) = region_id (heap s b)) refs = None
              \<longleftrightarrow> rid \<notin> set (selectedIds s)"
    by (auto simp: array_find_None ids b(2))
  from b sel(1) found none assms(2) show ?thesis
    by (auto simp: onRegionSelected_def)
qed

lemma onRegionSelected_distinct:
  assumes "rid \<in> set (assetIds s)" and "selectionDistinct s"
  shows "fst (onRegionSelected rid s) = None \<and> selectionDistinct (snd (onRegionSelected rid s))
       \<and> assetIds (snd (onRegionSelected rid s)) = assetIds s"
proof (cases "multiSelect s")
  case False
  obtain b where "onRegionSelected rid s = (None, s\<lparr>selectedRegions := Some [Some b]\<rparr>)"
    using onRegionSelected_single [OF assms(1) False] by blast
  then show ?thesis by (simp add: selectionDistinct_def assetIds_def)
next
  case True
  obtain b where b: "onRegionSelected rid s
              = (None, s\<lparr>selectedRegions :=
                   Some (if rid \<in> set (selectedIds s) then the (selectedRegions s)
                         else the (selectedRegions s) @ [Some b])\<rparr>)"
       "region_id (heap s b) = rid"
    using onRegionSelected_multi [OF assms(1) True assms(2)] by blast
  from assms(2) b show ?thesis
    by (auto simp: selectionDistinct_def assetIds_def selectedIds_def split: option.splits)
qed

lemma handleEvent_distinct:
  assumes "eventInAsset (assetIds s) e" and "selectionDistinct s"
  shows "fst (handleEvent e s) = None \<and> selectionDistinct (snd (handleEvent e s))
       \<and> assetIds (snd (handleEvent e s)) = assetIds s"
proof (cases e)
  case (RegionSelected rid)
  with assms onRegionSelected_distinct [of rid s] show ?thesis by simp
next
  case (Shift b)
  with assms(2) show ?thesis
    by (auto simp: setMultiSelect_def selectionDistinct_def assetIds_def split: option.splits)
qed

lemma run_distinct:
  assumes "list_all (eventInAsset (assetIds s)) events" and "selectionDistinct s"
  shows "fst (run events s) = None \<and> selectionDistinct (snd (run events s))"
  using assms
proof (induction events arbitrary: s)
  case Nil
  then show ?case by (simp add: run_def)
next
  case (Cons e events)
  obtain r s1 where h: "handleEvent e s = (r, s1)" by (cases "handleEvent e s")
  have step: "r = None \<and> selectionDistinct s1 \<and> assetIds s1 = assetIds s"
    using handleEvent_distinct [of s e] Cons.prems h by simp
  then have "list_all (eventInAsset (assetIds s1)) events" using Cons.prems by simp
  from Cons.IH [OF this] step h show ?case by (simp add: run_def)
qed

section \<open>Claims about the controller\<close>

lemma array_splice_minus_one: "array_splice (- 1) (Suc 0) xs = butlast xs"
proof (cases xs rule: rev_cases)
  case Nil
  then show ?thesis by (simp add: array_splice_def)
next
  case (snoc ys y)
  then show ?thesis by (simp add: array_splice_def)
qed

text \<open>
  C1. Region-delete for an id that the asset's region collection does not hold. The claim
  is that no deletion takes place. The code hands the index \<open>-1\<close> that \<open>findIndex\<close>
  returned to \<open>splice\<close>, and \<open>splice\<close> counts a negative index from the end of the
  array: the last region of the collection is removed (\<open>butlast\<close>), by
  \<^verbatim>\<open>deleteRegionFromAsset\<close> and so by \<^verbatim>\<open>onRegionDelete\<close>.
\<close>

theorem deleteRegionFromAsset_absent_id:
  assumes "rid \<notin> set (assetIds s)"
  shows "regions (deleteRegionFromAsset rid s) = butlast (regions s)
       \<and> regions (onRegionDelete rid s) = butlast (regions s)"
proof -
  have "array_findIndex (\<lambda>region. region_id (heap s region) = rid) (regions s) = - 1"
    using assms by (auto simp: array_findIndex_absent assetIds_def)
  then have "regions (deleteRegionFromAsset rid s) = butlast (regions s)"
    by (simp add: deleteRegionFromAsset_def Let_def array_splice_minus_one)
  then show ?thesis by (simp add: onRegionDelete_fields)
qed

theorem deleteRegionFromAsset_absent_id_witness:
  "''stale'' \<notin> set (assetIds testCanvas)
   \<and> assetIds testCanvas = [''test1'', ''test2'']
   \<and> assetIds (deleteRegionFromAsset ''stale'' testCanvas) = [''test1'']
   \<and> regions (onRegionDelete ''stale'' testCanvas) = [0]"
proof -
  have a: "''stale'' \<notin> set (assetIds testCanvas)"
    by (simp add: assetIds_def testCanvas_def testRegion_def)
  have r: "regions (deleteRegionFromAsset ''stale'' testCanvas) = [0]"
    using deleteRegionFromAsset_absent_id [OF a] by (simp add: testCanvas_def)
  have h: "heap (deleteRegionFromAsset ''stale'' testCanvas) = heap testCanvas"
    by (simp add: deleteRegionFromAsset_def Let_def)
  show ?thesis
    using a r deleteRegionFromAsset_absent_id [OF a]
    by (simp add: assetIds_def h) (simp add: testCanvas_def testRegion_def)
qed

lemma addRegions_region_throws: "addRegions_region region s = (Some Exception, s)"
  by (simp add: addRegions_region_def getTagsDescriptor_def)

lemma addRegions_throws: "regs \<noteq> [] \<Longrightarrow> addRegions regs s = (Some Exception, s)"
  by (cases regs) (simp_all add: addRegions_def addRegions_region_throws)

lemma duplicateEach_nonempty: "duplicateEach m regs used = Inr copies \<Longrightarrow> regs \<noteq> [] \<Longrightarrow> copies \<noteq> []"
proof (cases regs)
  case Nil
  then show "regs \<noteq> [] \<Longrightarrow> copies \<noteq> []" by simp
next
  case (Cons r rest)
  then show "duplicateEach m regs used = Inr copies \<Longrightarrow> copies \<noteq> []"
    by (cases r) (auto simp: Let_def split: sum.splits)
qed

text \<open>
  C2. Paste with a non-empty snapshot on the clipboard. The claim is that one duplicate
  per region of the snapshot is appended to the asset's region collection. In the code,
  \<^verbatim>\<open>addRegions\<close> evaluates \<^verbatim>\<open>CanvasHelpers.getTagsDescriptor(region)\<close> for the first
  duplicate, with one argument where the helper takes two; the helper's parameter
  \<open>region\<close> is \<^verbatim>\<open>undefined\<close> and the call throws before the region is drawn or added.
  Paste ends in an exception and leaves the whole state as it was: nothing is appended,
  and the host is not notified.
\<close>

theorem pasteRegions_throws:
  assumes "clipBoard s = Some regs" and "regs \<noteq> []"
  shows "pasteRegions pasteMargin s = (Some Exception, s)"
proof (cases "duplicateAndTransformRegions pasteMargin regs (map (heap s) (regions s))")
  case (Inl e)
  with assms(1) show ?thesis by (cases e) (simp add: pasteRegions_def ClipBoard_get_def)
next
  case (Inr copies)
  then have "copies \<noteq> []"
    using assms(2) by (auto simp: duplicateAndTransformRegions_def dest: duplicateEach_nonempty)
  with Inr assms(1) show ?thesis
    by (simp add: pasteRegions_def ClipBoard_get_def addRegions_throws)
qed

theorem pasteRegions_throws_witness:
  "clipBoard testCanvas = Some [Some (testRegion ''test1'' [''dog''])]
   \<and> fst (pasteRegions 10 testCanvas) = Some Exception
   \<and> regions (snd (pasteRegions 10 testCanvas)) = regions testCanvas
   \<and> notified (snd (pasteRegions 10 testCanvas)) = []"
proof -
  have c: "clipBoard testCanvas = Some [Some (testRegion ''test1'' [''dog''])]"
    by (simp add: testCanvas_def)
  have n: "[Some (testRegion ''test1'' [''dog''])] \<noteq> []" by simp
  show ?thesis using pasteRegions_throws [OF c n, of 10] c by (simp add: testCanvas_def)
qed

lemma error_unique: "(e :: error) = Exception"
  by (cases e) simp

lemma toggleEach_first:
  assumes "tags (heap s a) = Some arr"
  shows "fst (toggleEach a (t # ts) s) = (if ts = [] then None else Some Exception)
       \<and> snd (toggleEach a (t # ts) s) = setTags a None s"
  using assms by (cases ts) (simp_all add: setTags_def)

lemma applyTags_region_throws:
  "fst (applyTags_region r s) = Some Exception"
proof (cases r)
  case None
  then show ?thesis by (simp add: applyTags_region_def)
next
  case (Some a)
  show ?thesis
  proof (cases "noTags (selectedTags s)")
    case True
    with Some show ?thesis by (simp add: applyTags_region_def getTagsDescriptor_def)
  next
    case False
    obtain e s1 where t: "toggleEach a (the (selectedTags s)) s = (e, s1)"
      by (cases "toggleEach a (the (selectedTags s)) s")
    with Some False show ?thesis
      by (cases e) (simp_all add: applyTags_region_def getTagsDescriptor_def error_unique)
  qed
qed

lemma applyTags_nonempty_selection:
  assumes "selectedRegions s = Some (r # rest)"
  shows "fst (applyTags s) = Some Exception
       \<and> notified (snd (applyTags s)) = notified s
       \<and> (\<forall>a t ts arr. r = Some a \<and> selectedTags s = Some (t # ts) \<and> tags (heap s a) = Some arr
            \<longrightarrow> tags (heap (snd (applyTags s)) a) = None)"
proof -
  obtain e s1 where b: "applyTags_region r s = (e, s1)" by (cases "applyTags_region r s")
  have e: "e = Some Exception" using applyTags_region_throws [of r s] b by simp
  have res: "applyTags s = (Some Exception, s1)"
    using assms b e by (simp add: applyTags_def)
  have n: "notified s1 = notified s"
  proof -
    have "s1\<lparr>heap := heap s\<rparr> = s\<lparr>heap := heap s\<rparr>"
      using applyTags_region_heap_only [where r = r and s = s and k = "heap s"] b by simp
    then have "notified (s1\<lparr>heap := heap s\<rparr>) = notified (s\<lparr>heap := heap s\<rparr>)" by (rule arg_cong)
    then show ?thesis by simp
  qed
  have h: "tags (heap s1 a) = None"
    if "r = Some a" "selectedTags s = Some (t # ts)" "tags (heap s a) = Some arr" for a t ts arr
  proof -
    have "snd (toggleEach a (t # ts) s) = setTags a None s"
      using toggleEach_first [OF that(3)] by simp
    moreover obtain e2 s2 where t2: "toggleEach a (t # ts) s = (e2, s2)"
      by (cases "toggleEach a (t # ts) s")
    ultimately have s2: "s2 = setTags a None s" by simp
    have "s1 = s2"
      using b that(1,2) t2 by (cases e2) (simp_all add: applyTags_region_def getTagsDescriptor_def)
    with s2 show ?thesis by (simp add: setTags_def)
  qed
  from res n h show ?thesis by simp
qed

lemma toggleEach_others: "b \<noteq> a \<Longrightarrow> heap (snd (toggleEach a ts s)) b = heap s b"
  by (induction ts arbitrary: s) (auto simp: setTags_def split: option.splits)

lemma applyTags_region_others:
  assumes "b \<noteq> a"
  shows "heap (snd (applyTags_region (Some a) s)) b = heap s b"
proof (cases "noTags (selectedTags s)")
  case True
  with assms show ?thesis by (simp add: applyTags_region_def setTags_def getTagsDescriptor_def)
next
  case False
  obtain e s1 where t: "toggleEach a (the (selectedTags s)) s = (e, s1)"
    by (cases "toggleEach a (the (selectedTags s)) s")
  have "heap s1 b = heap s b"
    using toggleEach_others [OF assms, of "the (selectedTags s)" s] t by simp
  with False t show ?thesis
    by (cases e) (simp_all add: applyTags_region_def getTagsDescriptor_def)
qed

lemma applyTags_region_clear:
  "noTags (selectedTags s) \<Longrightarrow> tags (heap (snd (applyTags_region (Some a) s)) a) = Some []"
  by (simp add: applyTags_region_def setTags_def getTagsDescriptor_def)

lemma applyTags_first:
  assumes "selectedRegions s = Some (r # rest)"
  shows "applyTags s = (Some Exception, snd (applyTags_region r s))"
proof -
  obtain e s1 where b: "applyTags_region r s = (e, s1)" by (cases "applyTags_region r s")
  have "e = Some Exception" using applyTags_region_throws [of r s] b by simp
  with assms b show ?thesis by (simp add: applyTags_def)
qed

text \<open>
  C3. Tag-apply (after a change of the armed tags, and after select-all) with a non-empty
  selection. The claim is that every selected region has its tags cleared when no tag is
  armed and otherwise toggled by each armed tag, and that the host is notified then. In
  the code, \<^verbatim>\<open>applyTags\<close> stores the value of the call of \<open>toggleTag\<close> in
  \<^verbatim>\<open>region.tags\<close>, and \<open>toggleTag\<close> works in place and returns nothing: after the
  first armed tag the tags of the first selected region are \<^verbatim>\<open>undefined\<close>. The handler
  then throws (at the second armed tag, or at \<^verbatim>\<open>getTagsDescriptor(region)\<close>, which is
  called with one argument): with no tag armed the first region's tags are cleared and
  the handler throws right after. No other region is touched, and the host is not notified.
\<close>

theorem applyTags_throws:
  assumes "selectedRegions s = Some (r # rest)"
  shows "fst (applyTags s) = Some Exception
       \<and> notified (snd (applyTags s)) = notified s
       \<and> (\<forall>a t ts arr. r = Some a \<and> selectedTags s = Some (t # ts) \<and> tags (heap s a) = Some arr
            \<longrightarrow> tags (heap (snd (applyTags s)) a) = None)
       \<and> (\<forall>a. r = Some a \<and> noTags (selectedTags s)
            \<longrightarrow> tags (heap (snd (applyTags s)) a) = Some [])
       \<and> (\<forall>a b. r = Some a \<and> b \<noteq> a \<longrightarrow> heap (snd (applyTags s)) b = heap s b)
       \<and> (regions s \<noteq> [] \<longrightarrow>
            fst (selectAllRegions s) = Some Exception
          \<and> notified (snd (selectAllRegions s)) = notified s)"
proof -
  have first: "snd (applyTags s) = snd (applyTags_region r s)"
    using applyTags_first [OF assms] by simp
  have cleared: "tags (heap (snd (applyTags s)) a) = Some []"
    if "r = Some a" "noTags (selectedTags s)" for a
    using that first by (simp add: applyTags_region_clear)
  have others: "heap (snd (applyTags s)) b = heap s b" if "r = Some a" "b \<noteq> a" for a b
    using that first by (simp add: applyTags_region_others)
  have chosen: "fst (applyTags s) = Some Exception
       \<and> notified (snd (applyTags s)) = notified s
       \<and> (\<forall>a t ts arr. r = Some a \<and> selectedTags s = Some (t # ts) \<and> tags (heap s a) = Some arr
            \<longrightarrow> tags (heap (snd (applyTags s)) a) = None)"
    using assms by (rule applyTags_nonempty_selection)
  have everything: "fst (selectAllRegions s) = Some Exception
          \<and> notified (snd (selectAllRegions s)) = notified s" if nonempty: "regions s \<noteq> []"
  proof -
    obtain a others where "regions s = a # others" using nonempty by (cases "regions s") auto
    then have "selectedRegions (s\<lparr>selectedRegions := Some (map Some (regions s))\<rparr>)
               = Some (Some a # map Some others)" by simp
    from applyTags_nonempty_selection [OF this] show ?thesis
      by (simp add: selectAllRegions_def)
  qed
  from chosen cleared others everything show ?thesis by blast
qed

theorem applyTags_throws_witness:
  "selectedRegions testCanvas = Some [Some 0]
   \<and> selectedTags testCanvas = Some [''cat'']
   \<and> tags (heap testCanvas 0) = Some [''dog'']
   \<and> fst (applyTags testCanvas) = Some Exception
   \<and> tags (heap (snd (applyTags testCanvas)) 0) = None
   \<and> heap (snd (applyTags testCanvas)) 1 = heap testCanvas 1
   \<and> notified (snd (applyTags testCanvas)) = []"
proof -
  have a: "selectedRegions testCanvas = Some [Some 0]" by (simp add: testCanvas_def)
  have b: "selectedTags testCanvas = Some [''cat'']" by (simp add: testCanvas_def)
  have c: "tags (heap testCanvas 0) = Some [''dog'']" by (simp add: testCanvas_def testRegion_def)
  have d: "notified testCanvas = []" by (simp add: testCanvas_def)
  show ?thesis using applyTags_throws [OF a] a b c d by simp
qed

text \<open>
  C4, as claimed: copying an empty selection leaves the clipboard as it is. It does not:
  the empty array passes the test of \<^verbatim>\<open>copyRegions\<close> and replaces the snapshot.
\<close>

theorem copyRegions_empty_selection_counterexample:
  "selectedRegions (testCanvas\<lparr>selectedRegions := Some []\<rparr>) = Some []
   \<and> clipBoard (testCanvas\<lparr>selectedRegions := Some []\<rparr>) = Some [Some (testRegion ''test1'' [''dog''])]
   \<and> clipBoard (copyRegions (testCanvas\<lparr>selectedRegions := Some []\<rparr>)) = Some []"
  by (simp add: copyRegions_def ClipBoard_set_def testCanvas_def)

text \<open>
  C4, amended. Copy is a no-op only when \<^verbatim>\<open>state.selectedRegions\<close> is absent. Whenever
  the selection array exists, the empty one too, Copy replaces the snapshot on the
  clipboard by a snapshot of the selection; after a copy of the empty selection the
  clipboard holds the empty snapshot.
\<close>

theorem copyRegions_snapshot:
  "(selectedRegions s = None \<longrightarrow> copyRegions s = s)
   \<and> (\<forall>sel. selectedRegions s = Some sel \<longrightarrow>
         copyRegions s = s\<lparr>clipBoard := Some (map (map_option (heap s)) sel)\<rparr>)
   \<and> (selectedRegions s = Some [] \<longrightarrow> clipBoard (copyRegions s) = Some [])"
  by (simp add: copyRegions_def ClipBoard_set_def)

theorem copyRegions_snapshot_witness:
  "selectedRegions testCanvas = Some [Some 0]
   \<and> clipBoard (copyRegions testCanvas) = Some [Some (testRegion ''test1'' [''dog''])]
   \<and> copyRegions (testCanvas\<lparr>selectedRegions := None\<rparr>) = testCanvas\<lparr>selectedRegions := None\<rparr>
   \<and> clipBoard (copyRegions (testCanvas\<lparr>selectedRegions := Some []\<rparr>)) = Some []"
  using copyRegions_snapshot [of testCanvas]
        copyRegions_snapshot [of "testCanvas\<lparr>selectedRegions := None\<rparr>"]
        copyRegions_snapshot [of "testCanvas\<lparr>selectedRegions := Some []\<rparr>"]
  by (simp add: testCanvas_def)

text \<open>
  C5. Region-move for an id that the asset's region collection does not hold. The handler
  has no statement that can throw (the model gives it no error result), and it changes
  neither the region collection nor any region object nor the asset. The selection
  becomes the one-element array that holds \<^verbatim>\<open>undefined\<close>, and the host is notified
  with the unchanged asset.
\<close>

theorem onRegionMove_absent_id:
  assumes "rid \<notin> set (assetIds s)"
  shows "regions (onRegionMove scaleRegionToSourceSize rid regionData s) = regions s
       \<and> heap (onRegionMove scaleRegionToSourceSize rid regionData s) = heap s
       \<and> asset (onRegionMove scaleRegionToSourceSize rid regionData s) = asset s
       \<and> selectedRegions (onRegionMove scaleRegionToSourceSize rid regionData s) = Some [None]
       \<and> notified (onRegionMove scaleRegionToSourceSize rid regionData s)
           = notified s @ [Some (asset s, regions s)]"
proof -
  have "array_findIndex (\<lambda>region. region_id (heap s region) = rid) (regions s) = - 1"
    using assms by (auto simp: array_findIndex_absent assetIds_def)
  then show ?thesis
    by (simp add: onRegionMove_def Let_def array_get_def onAssetMetadataChanged_def selectedAsset_def)
qed

theorem onRegionMove_absent_id_witness:
  "''stale'' \<notin> set (assetIds testCanvas)
   \<and> regions (onRegionMove (\<lambda>d. d) ''stale'' \<lparr>rd_x = 5, rd_y = 5, rd_width = 1, rd_height = 1, rd_points = []\<rparr> testCanvas) = [0, 1]
   \<and> heap (onRegionMove (\<lambda>d. d) ''stale'' \<lparr>rd_x = 5, rd_y = 5, rd_width = 1, rd_height = 1, rd_points = []\<rparr> testCanvas) = heap testCanvas"
proof -
  have a: "''stale'' \<notin> set (assetIds testCanvas)"
    by (simp add: assetIds_def testCanvas_def testRegion_def)
  show ?thesis
    using a onRegionMove_absent_id [OF a, of "\<lambda>d. d" "\<lparr>rd_x = 5, rd_y = 5, rd_width = 1, rd_height = 1, rd_points = []\<rparr>"]
    by (simp add: testCanvas_def)
qed

text \<open>
  C8. When the id of the incoming asset differs from the previous one,
  \<^verbatim>\<open>componentDidUpdate\<close> wipes the regions of the surface; it clears
  \<^verbatim>\<open>selectedRegions\<close> when the new asset has regions and leaves the selection as it
  was when the new asset has none. This holds whether or not the armed tags changed with
  the asset, and whether or not \<^verbatim>\<open>applyTags\<close> then throws.
\<close>

theorem componentDidUpdate_asset_change:
  assumes "asset_id (asset s) \<noteq> prev_asset_id prev"
  shows "surface (snd (componentDidUpdate prev s)) = []
       \<and> selectedRegions (snd (componentDidUpdate prev s))
           = (if regions s \<noteq> [] then Some [] else selectedRegions s)"
  using assms by (simp add: componentDidUpdate_def clearAllRegions_def Let_def applyTags_keeps)

theorem componentDidUpdate_asset_change_witness:
  "asset_id (asset testCanvas) \<noteq> ''asset-0''
   \<and> surface (snd (componentDidUpdate \<lparr>prev_asset_id = ''asset-0'', prev_selectionMode = 0, prev_selectedTagsRef = 0\<rparr> testCanvas)) = []
   \<and> selectedRegions (snd (componentDidUpdate \<lparr>prev_asset_id = ''asset-0'', prev_selectionMode = 0, prev_selectedTagsRef = 0\<rparr> testCanvas)) = Some []
   \<and> selectedRegions (snd (componentDidUpdate \<lparr>prev_asset_id = ''asset-0'', prev_selectionMode = 0, prev_selectedTagsRef = 0\<rparr> (testCanvas\<lparr>regions := []\<rparr>))) = Some [Some 0]"
proof -
  have a: "asset_id (asset testCanvas) \<noteq> ''asset-0''" by (simp add: testCanvas_def)
  have b: "asset_id (asset (testCanvas\<lparr>regions := []\<rparr>)) \<noteq> ''asset-0''" by (simp add: testCanvas_def)
  show ?thesis
    using a
      componentDidUpdate_asset_change [of testCanvas "\<lparr>prev_asset_id = ''asset-0'', prev_selectionMode = 0, prev_selectedTagsRef = 0\<rparr>"]
      componentDidUpdate_asset_change [of "testCanvas\<lparr>regions := []\<rparr>" "\<lparr>prev_asset_id = ''asset-0'', prev_selectionMode = 0, prev_selectedTagsRef = 0\<rparr>"]
    by (simp add: testCanvas_def)
qed








text \<open>
  C9. From a well-formed selection (the initial empty one, for instance), every sequence
  of Region-select events for ids of the asset, with the Shift key going down and up in
  between, runs without an exception and ends in a well-formed selection: the selected
  ids are pairwise distinct. One event in single-select mode makes the selection exactly
  the first region of the asset with the id; in multi-select mode that region is
  appended when no selected region has the same id, and the selection stays as it is
  otherwise, whichever objects carry the id.
\<close>

theorem selection_ids_distinct:
  assumes "selectionDistinct s" and "list_all (eventInAsset (assetIds s)) events"
  shows "fst (run events s) = None
       \<and> selectionDistinct (snd (run events s))
       \<and> (\<forall>rid. rid \<in> set (assetIds s) \<and> \<not> multiSelect s \<longrightarrow>
            (\<exists>b. onRegionSelected rid s = (None, s\<lparr>selectedRegions := Some [Some b]\<rparr>)
                \<and> array_find (\<lambda>region. region_id (heap s region) = rid) (regions s) = Some b
                \<and> region_id (heap s b) = rid \<and> b \<in> set (regions s)))
       \<and> (\<forall>rid. rid \<in> set (assetIds s) \<and> multiSelect s \<longrightarrow>
            (\<exists>b. onRegionSelected rid s
                    = (None, s\<lparr>selectedRegions :=
                         Some (if rid \<in> set (selectedIds s) then the (selectedRegions s)
                               else the (selectedRegions s) @ [Some b])\<rparr>)
                \<and> array_find (\<lambda>region. region_id (heap s region) = rid) (regions s) = Some b
                \<and> region_id (heap s b) = rid \<and> b \<in> set (regions s)))"
proof -
  have seq: "fst (run events s) = None \<and> selectionDistinct (snd (run events s))"
    using assms(2) assms(1) by (rule run_distinct)
  have single: "\<exists>b. onRegionSelected rid s = (None, s\<lparr>selectedRegions := Some [Some b]\<rparr>)
                \<and> array_find (\<lambda>region. region_id (heap s region) = rid) (regions s) = Some b
                \<and> region_id (heap s b) = rid \<and> b \<in> set (regions s)"
    if "rid \<in> set (assetIds s)" "\<not> multiSelect s" for rid
    using that by (rule onRegionSelected_single)
  have multi: "\<exists>b. onRegionSelected rid s
                    = (None, s\<lparr>selectedRegions :=
                         Some (if rid \<in> set (selectedIds s) then the (selectedRegions s)
                               else the (selectedRegions s) @ [Some b])\<rparr>)
                \<and> array_find (\<lambda>region. region_id (heap s region) = rid) (regions s) = Some b
                \<and> region_id (heap s b) = rid \<and> b \<in> set (regions s)"
    if "rid \<in> set (assetIds s)" "multiSelect s" for rid
    using that assms(1) by (rule onRegionSelected_multi)
  from seq single multi show ?thesis by blast
qed

theorem selection_ids_distinct_witness:
  "selectionDistinct (testCanvas\<lparr>selectedRegions := Some []\<rparr>)
   \<and> list_all (eventInAsset (assetIds (testCanvas\<lparr>selectedRegions := Some []\<rparr>)))
        [RegionSelected ''test1'', Shift True, RegionSelected ''test2'', RegionSelected ''test1'']
   \<and> fst (run [RegionSelected ''test1'', Shift True, RegionSelected ''test2'', RegionSelected ''test1'']
        (testCanvas\<lparr>selectedRegions := Some []\<rparr>)) = None
   \<and> selectionDistinct (snd (run [RegionSelected ''test1'', Shift True, RegionSelected ''test2'', RegionSelected ''test1'']
        (testCanvas\<lparr>selectedRegions := Some []\<rparr>)))
   \<and> selectedRegions (snd (run [RegionSelected ''test1'', Shift True, RegionSelected ''test2'', RegionSelected ''test1'']
        (testCanvas\<lparr>selectedRegions := Some []\<rparr>))) = Some [Some 0, Some 1]"
proof -
  have a: "selectionDistinct (testCanvas\<lparr>selectedRegions := Some []\<rparr>)"
    by (simp add: selectionDistinct_def)
  have b: "list_all (eventInAsset (assetIds (testCanvas\<lparr>selectedRegions := Some []\<rparr>)))
        [RegionSelected ''test1'', Shift True, RegionSelected ''test2'', RegionSelected ''test1'']"
    by (simp add: assetIds_def testCanvas_def testRegion_def)
  have c: "selectedRegions (snd (run [RegionSelected ''test1'', Shift True, RegionSelected ''test2'', RegionSelected ''test1'']
        (testCanvas\<lparr>selectedRegions := Some []\<rparr>))) = Some [Some 0, Some 1]"
    by (simp add: run_def onRegionSelected_def setMultiSelect_def testCanvas_def testRegion_def)
  show ?thesis using a b c selection_ids_distinct [OF a b] by simp
qed

end
